theory Spec2Isabelle
  imports Complex_Main
begin

section \<open>Numeric model\<close>

text \<open>
  The program streamlit_ode_demo.py computes with Python floats and with numpy
  float64 arrays. A finite float is idealised here as a real number (no rounding, no
  overflow, no signed zero); the three special values a float64 array element can hold
  are kept as constructors of their own, because the program writes \<open>np.nan\<close> into
  its result and tests for it, and replaces it by \<open>float('inf')\<close> in the diagnostics.
\<close>

datatype npfloat = Num real | PInf | NInf | NaN

text \<open>The exceptions the code under study can raise.\<close>

datatype error = ZeroDivisionError | ValueError | IndexError

text \<open>\<open>r * x\<close> for a finite Python float \<open>r\<close> and a float64 \<open>x\<close>.\<close>

fun np_mul :: "real \<Rightarrow> npfloat \<Rightarrow> npfloat" where
  "np_mul r (Num c) = Num (r * c)"
| "np_mul r PInf = (if 0 < r then PInf else if r < 0 then NInf else NaN)"
| "np_mul r NInf = (if 0 < r then NInf else if r < 0 then PInf else NaN)"
| "np_mul r NaN = NaN"

text \<open>\<open>x + y\<close> on float64 values.\<close>

fun np_add :: "npfloat \<Rightarrow> npfloat \<Rightarrow> npfloat" where
  "np_add (Num a) (Num b) = Num (a + b)"
| "np_add NaN y = NaN"
| "np_add x NaN = NaN"
| "np_add PInf NInf = NaN"
| "np_add NInf PInf = NaN"
| "np_add PInf y = PInf"
| "np_add NInf y = NInf"
| "np_add x PInf = PInf"
| "np_add x NInf = NInf"

text \<open>\<open>x - a\<close> for a float64 \<open>x\<close> and a finite \<open>a\<close>.\<close>

fun np_sub :: "npfloat \<Rightarrow> real \<Rightarrow> npfloat" where
  "np_sub (Num c) a = Num (c - a)"
| "np_sub PInf a = PInf"
| "np_sub NInf a = NInf"
| "np_sub NaN a = NaN"

text \<open>
  \<open>x / d\<close> for a float64 \<open>x\<close> and a finite divisor \<open>d\<close>. numpy does not raise on a
  zero divisor: it warns and returns an infinity, or NaN for \<open>0 / 0\<close>.
\<close>

fun np_div :: "npfloat \<Rightarrow> real \<Rightarrow> npfloat" where
  "np_div (Num c) d =
     (if d = 0 then (if 0 < c then PInf else if c < 0 then NInf else NaN)
      else Num (c / d))"
| "np_div PInf d = (if d < 0 then NInf else PInf)"
| "np_div NInf d = (if d < 0 then PInf else NInf)"
| "np_div NaN d = NaN"

fun np_abs :: "npfloat \<Rightarrow> npfloat" where
  "np_abs (Num c) = Num \<bar>c\<bar>"
| "np_abs PInf = PInf"
| "np_abs NInf = PInf"
| "np_abs NaN = NaN"

text \<open>\<open>x > r\<close> and \<open>x < r\<close>: every comparison with NaN is false.\<close>

fun np_gt :: "npfloat \<Rightarrow> real \<Rightarrow> bool" where
  "np_gt (Num c) r = (r < c)"
| "np_gt PInf r = True"
| "np_gt NInf r = False"
| "np_gt NaN r = False"

fun np_lt :: "npfloat \<Rightarrow> real \<Rightarrow> bool" where
  "np_lt (Num c) r = (c < r)"
| "np_lt PInf r = False"
| "np_lt NInf r = True"
| "np_lt NaN r = False"

fun np_isnan :: "npfloat \<Rightarrow> bool" where
  "np_isnan NaN = True"
| "np_isnan x = False"

text \<open>Python's \<open>int(x)\<close> on a float truncates towards zero.\<close>

definition py_int :: "real \<Rightarrow> int" where
  "py_int x = (if 0 \<le> x then \<lfloor>x\<rfloor> else \<lceil>x\<rceil>)"

text \<open>
  \<open>np.linspace(start, stop, num)\<close>: \<open>num\<close> samples, the endpoint included. A negative
  \<open>num\<close> raises ValueError; for \<open>num > 1\<close> the step is \<open>(stop - start) / (num - 1)\<close>
  and the last sample is set to \<open>stop\<close>; a single sample is \<open>start\<close>.
\<close>

definition linspace :: "real \<Rightarrow> real \<Rightarrow> int \<Rightarrow> error + real list" where
  "linspace start stop num =
     (if num < 0 then Inl ValueError
      else let dv = num - 1; delta = stop - start in
        if 0 < dv
        then Inr ((map (\<lambda>i. real i * (delta / real_of_int dv) + start) [0..<nat num])
                    [nat num - 1 := stop])
        else Inr (map (\<lambda>i. real i * delta + start) [0..<nat num]))"

text \<open>\<open>np.zeros(n)\<close>; a negative dimension raises ValueError.\<close>

definition zeros :: "int \<Rightarrow> error + npfloat list" where
  "zeros n = (if n < 0 then Inl ValueError else Inr (replicate (nat n) (Num 0)))"

section \<open>The integrators\<close>

text \<open>\<open>n_steps = int(t_max / h) + 1\<close>, for \<open>h\<close> other than zero.\<close>

definition n_steps :: "real \<Rightarrow> real \<Rightarrow> int" where
  "n_steps h t_max = py_int (t_max / h) + 1"

text \<open>
  The body of the loop of \<open>generate_explicit_euler\<close>, over the indices that remain of
  \<open>range(n_steps - 1)\<close>:
  \<^verbatim>\<open>
    for i in range(n_steps - 1):
        C[i + 1] = C[i] + h * (-k * C[i])
        if abs(C[i + 1]) > 1000:
            C[i + 1:] = np.nan
            break
  \<close>
  The array has \<open>n_steps\<close> elements, so \<open>i + 1\<close> is a valid index for every \<open>i\<close> of the
  range and no assignment raises.
\<close>

fun explicit_loop :: "real \<Rightarrow> real \<Rightarrow> nat list \<Rightarrow> npfloat list \<Rightarrow> npfloat list" where
  "explicit_loop h k [] C = C"
| "explicit_loop h k (i # is) C =
     (let C1 = C[i + 1 := np_add (C ! i) (np_mul h (np_mul (- k) (C ! i)))] in
      if np_gt (np_abs (C1 ! (i + 1))) 1000
      then take (i + 1) C1 @ replicate (length C1 - (i + 1)) NaN
      else explicit_loop h k is C1)"

text \<open>
  \<open>generate_explicit_euler(h, k, C0, t_max)\<close>. \<open>t_max / h\<close> raises ZeroDivisionError
  for \<open>h = 0\<close>; \<open>np.linspace\<close> raises ValueError for a negative sample count; and
  \<open>C[0] = C0\<close> raises IndexError on an empty array.
\<close>

definition generate_explicit_euler ::
    "real \<Rightarrow> real \<Rightarrow> real \<Rightarrow> real \<Rightarrow> error + (real list \<times> npfloat list)" where
  "generate_explicit_euler h k C0 t_max =
     (if h = 0 then Inl ZeroDivisionError
      else
        case linspace 0 t_max (n_steps h t_max) of
          Inl e \<Rightarrow> Inl e
        | Inr t \<Rightarrow>
            (case zeros (n_steps h t_max) of
               Inl e \<Rightarrow> Inl e
             | Inr C \<Rightarrow>
                 if C = [] then Inl IndexError
                 else Inr (t, explicit_loop h k [0..<nat (n_steps h t_max - 1)] (C[0 := Num C0]))))"

text \<open>
  The loop of \<open>generate_implicit_euler\<close>:
  \<^verbatim>\<open>
    for i in range(n_steps - 1):
        C[i + 1] = C[i] / (1 + h * k)
  \<close>
\<close>

fun implicit_loop :: "real \<Rightarrow> real \<Rightarrow> nat list \<Rightarrow> npfloat list \<Rightarrow> npfloat list" where
  "implicit_loop h k [] C = C"
| "implicit_loop h k (i # is) C =
     implicit_loop h k is (C[i + 1 := np_div (C ! i) (1 + h * k)])"

definition generate_implicit_euler ::
    "real \<Rightarrow> real \<Rightarrow> real \<Rightarrow> real \<Rightarrow> error + (real list \<times> npfloat list)" where
  "generate_implicit_euler h k C0 t_max =
     (if h = 0 then Inl ZeroDivisionError
      else
        case linspace 0 t_max (n_steps h t_max) of
          Inl e \<Rightarrow> Inl e
        | Inr t \<Rightarrow>
            (case zeros (n_steps h t_max) of
               Inl e \<Rightarrow> Inl e
             | Inr C \<Rightarrow>
                 if C = [] then Inl IndexError
                 else Inr (t, implicit_loop h k [0..<nat (n_steps h t_max - 1)] (C[0 := Num C0]))))"

text \<open>One explicit update on a finite value: \<open>c + h * (-k * c)\<close>.\<close>

definition euler_step :: "real \<Rightarrow> real \<Rightarrow> real \<Rightarrow> real" where
  "euler_step h k c = c + h * (- k * c)"

section \<open>The diagnostics of main\<close>

text \<open>
  \<open>main\<close> renders one box for the accuracy and one for the stability of the selected
  method. The model returns which box is rendered, with the relative error when the
  box prints one.
\<close>

datatype accuracy_tier = Excellent | Good | Poor | Implicit_Results

datatype stability_tier = Unstable | Near_Limit | Stable | Unconditionally_Stable

text \<open>\<open>critical_h = 2 / k\<close> (line 142; \<open>k = 0.5\<close> in \<open>main\<close>).\<close>

definition critical_h :: "real \<Rightarrow> error + real" where
  "critical_h k = (if k = 0 then Inl ZeroDivisionError else Inr (2 / k))"

text \<open>\<open>C_analytical_final = C0 * np.exp(-k * t_max)\<close>.\<close>

definition C_analytical_final :: "real \<Rightarrow> real \<Rightarrow> real \<Rightarrow> real" where
  "C_analytical_final k C0 t_max = C0 * exp (- k * t_max)"

text \<open>
  \<open>C_explicit_final = C_explicit[-1] if not np.isnan(C_explicit[-1]) else float('inf')\<close>
\<close>

definition C_explicit_final :: "npfloat \<Rightarrow> npfloat" where
  "C_explicit_final last_value = (if \<not> np_isnan last_value then last_value else PInf)"

text \<open>\<open>error_explicit\<close> and \<open>error_implicit\<close>: \<open>abs(final - C_analytical_final)\<close>.\<close>

definition error_explicit :: "npfloat \<Rightarrow> real \<Rightarrow> npfloat" where
  "error_explicit last_value analytical = np_abs (np_sub (C_explicit_final last_value) analytical)"

definition error_implicit :: "npfloat \<Rightarrow> real \<Rightarrow> npfloat" where
  "error_implicit last_value analytical = np_abs (np_sub last_value analytical)"

text \<open>\<open>(error / C_analytical_final) * 100\<close>, as the boxes print it.\<close>

definition relative_error :: "npfloat \<Rightarrow> real \<Rightarrow> npfloat" where
  "relative_error err analytical = np_mul 100 (np_div err analytical)"

text \<open>
  The accuracy column (lines 194 to 238). The arguments are the selected method, the
  last elements of \<open>C_explicit\<close> and \<open>C_implicit\<close>, and \<open>C_analytical_final\<close>. The
  result is the box and the relative error it prints; the box of poor accuracy prints
  none.
\<close>

definition accuracy_analysis ::
    "string \<Rightarrow> npfloat \<Rightarrow> npfloat \<Rightarrow> real \<Rightarrow> accuracy_tier \<times> npfloat option" where
  "accuracy_analysis method explicit_last implicit_last analytical =
     (if method = ''Explicit Euler''
      then (if np_lt (error_explicit explicit_last analytical) 0.01
            then (Excellent, Some (relative_error (error_explicit explicit_last analytical) analytical))
            else if np_lt (error_explicit explicit_last analytical) 0.1
            then (Good, Some (relative_error (error_explicit explicit_last analytical) analytical))
            else (Poor, None))
      else (Implicit_Results,
            Some (relative_error (error_implicit implicit_last analytical) analytical)))"

text \<open>The stability column (lines 243 to 279), for a given \<open>critical_h\<close>.\<close>

definition stability_box :: "string \<Rightarrow> real \<Rightarrow> real \<Rightarrow> stability_tier" where
  "stability_box method h crit =
     (if method = ''Explicit Euler''
      then (if h > crit then Unstable
            else if h > crit * 0.8 then Near_Limit
            else Stable)
      else Unconditionally_Stable)"

definition stability_analysis :: "string \<Rightarrow> real \<Rightarrow> real \<Rightarrow> error + stability_tier" where
  "stability_analysis method h k =
     (case critical_h k of
        Inl e \<Rightarrow> Inl e
      | Inr crit \<Rightarrow> Inr (stability_box method h crit))"

section \<open>Auxiliary functions\<close>

text \<open>
  Used in the proofs only: what the explicit loop writes behind a finite element \<open>c\<close>
  when \<open>m\<close> iterations remain, and what the implicit loop writes behind an element
  \<open>x\<close>. The lemmas \<open>explicit_loop_tail\<close> and \<open>implicit_loop_tail\<close> prove that the loops
  above compute exactly these lists.
\<close>

fun explicit_tail :: "real \<Rightarrow> real \<Rightarrow> real \<Rightarrow> nat \<Rightarrow> npfloat list" where
  "explicit_tail h k c 0 = []"
| "explicit_tail h k c (Suc m) =
     (if 1000 < \<bar>euler_step h k c\<bar> then replicate (Suc m) NaN
      else Num (euler_step h k c) # explicit_tail h k (euler_step h k c) m)"

fun implicit_tail :: "real \<Rightarrow> real \<Rightarrow> npfloat \<Rightarrow> nat \<Rightarrow> npfloat list" where
  "implicit_tail h k x 0 = []"
| "implicit_tail h k x (Suc m) =
     np_div x (1 + h * k) # implicit_tail h k (np_div x (1 + h * k)) m"

section \<open>The loop of the explicit integrator\<close>

lemma explicit_loop_tail:
  "length C = i + 1 + m \<Longrightarrow> C ! i = Num c \<Longrightarrow>
   explicit_loop h k [i..<i + m] C = take (i + 1) C @ explicit_tail h k c m"
proof (induction m arbitrary: i C c)
  case 0
  then show ?case by simp
next
  case (Suc m)
  let ?v = "euler_step h k c"
  let ?C1 = "C[i + 1 := Num ?v]"
  have upt: "[i..<i + Suc m] = i # [i + 1..<(i + 1) + m]"
    by (simp add: upt_conv_Cons)
  have new: "np_add (C ! i) (np_mul h (np_mul (- k) (C ! i))) = Num ?v"
    using Suc.prems by (simp add: euler_step_def)
  have tk: "take (i + 1 + 1) ?C1 = take (i + 1) C @ [Num ?v]"
    using Suc.prems by (simp add: take_Suc_conv_app_nth)
  have "explicit_loop h k [i + 1..<(i + 1) + m] ?C1 =
      take (i + 1 + 1) ?C1 @ explicit_tail h k ?v m"
    using Suc.prems by (intro Suc.IH) simp_all
  then show ?case
    using Suc.prems unfolding upt explicit_loop.simps new Let_def tk
    by (simp del: replicate_Suc)
qed

lemma euler_step_mult: "euler_step h k c = c * (1 - h * k)"
  by (simp add: euler_step_def algebra_simps)

lemma explicit_tail_length: "length (explicit_tail h k c m) = m"
  by (induction m arbitrary: c) auto

lemma explicit_tail_nth:
  "j < m \<Longrightarrow> explicit_tail h k c m ! j =
     (if \<exists>r\<le>j. 1000 < \<bar>c * (1 - h * k) ^ (r + 1)\<bar> then NaN
      else Num (c * (1 - h * k) ^ (j + 1)))"
proof (induction m arbitrary: c j)
  case 0
  then show ?case by simp
next
  case (Suc m)
  let ?q = "1 - h * k"
  show ?case
  proof (cases "1000 < \<bar>c * ?q\<bar>")
    case True
    then have "\<exists>r\<le>j. 1000 < \<bar>c * ?q ^ (r + 1)\<bar>" by (intro exI[of _ 0]) simp
    with True Suc.prems show ?thesis by (simp add: euler_step_mult del: replicate_Suc)
  next
    case False
    have ex: "(\<exists>r\<le>Suc j'. 1000 < \<bar>c * ?q ^ (r + 1)\<bar>) \<longleftrightarrow>
        (\<exists>r\<le>j'. 1000 < \<bar>c * ?q * ?q ^ (r + 1)\<bar>)" for j'
    proof
      assume "\<exists>r\<le>Suc j'. 1000 < \<bar>c * ?q ^ (r + 1)\<bar>"
      then obtain r where r: "r \<le> Suc j'" "1000 < \<bar>c * ?q ^ (r + 1)\<bar>" by auto
      with False obtain r' where "r = Suc r'" by (cases r) auto
      with r show "\<exists>r\<le>j'. 1000 < \<bar>c * ?q * ?q ^ (r + 1)\<bar>"
        by (intro exI[of _ r']) (simp add: mult.assoc)
    next
      assume "\<exists>r\<le>j'. 1000 < \<bar>c * ?q * ?q ^ (r + 1)\<bar>"
      then obtain r where "r \<le> j'" "1000 < \<bar>c * ?q * ?q ^ (r + 1)\<bar>" by auto
      then show "\<exists>r\<le>Suc j'. 1000 < \<bar>c * ?q ^ (r + 1)\<bar>"
        by (intro exI[of _ "Suc r"]) (simp add: mult.assoc)
    qed
    show ?thesis
    proof (cases j)
      case 0
      with False show ?thesis by (simp add: euler_step_mult)
    next
      case (Suc j')
      with Suc.prems have "j' < m" by simp
      from Suc.IH[OF this, of "c * ?q"] False Suc ex[of j'] show ?thesis
        by (simp add: euler_step_mult mult.assoc)
    qed
  qed
qed

lemma py_int_le_minus_one: "py_int x + 1 \<le> 0 \<longleftrightarrow> x \<le> - 1"
  unfolding py_int_def by (auto simp: ceiling_le_iff le_floor_iff) linarith+

lemma n_steps_pos: "0 < h \<Longrightarrow> 0 \<le> t_max \<Longrightarrow> n_steps h t_max = \<lfloor>t_max / h\<rfloor> + 1"
  by (simp add: n_steps_def py_int_def)



lemma explicit_Inr:
  assumes "generate_explicit_euler h k C0 t_max = Inr (t, C)"
  shows "0 < n_steps h t_max"
    and "linspace 0 t_max (n_steps h t_max) = Inr t"
    and "C = Num C0 # explicit_tail h k C0 (nat (n_steps h t_max) - 1)"
proof -
  let ?n = "nat (n_steps h t_max)"
  let ?A = "(replicate ?n (Num 0))[0 := Num C0]"
  show n: "0 < n_steps h t_max" and "linspace 0 t_max (n_steps h t_max) = Inr t"
    using assms
    by (auto simp: generate_explicit_euler_def linspace_def zeros_def Let_def
        split: if_splits)
  have "C = explicit_loop h k [0..<0 + (?n - 1)] ?A"
    using assms n
    by (auto simp: generate_explicit_euler_def zeros_def nat_diff_distrib
        split: if_splits sum.splits)
  also have "\<dots> = take (0 + 1) ?A @ explicit_tail h k C0 (?n - 1)"
    using n by (intro explicit_loop_tail) auto
  also have "take (0 + 1) ?A = [Num C0]"
    using n by (cases ?n) auto
  finally show "C = Num C0 # explicit_tail h k C0 (?n - 1)" by simp
qed

text \<open>
  The closed form of the result: element \<open>j\<close> is NaN when some value computed at a step
  \<open>1, \<dots>, j\<close> was above the threshold, and \<open>C0 * (1 - h * k) ^ j\<close> otherwise.
\<close>

lemma explicit_nth:
  assumes "generate_explicit_euler h k C0 t_max = Inr (t, C)"
  shows "length C = nat (n_steps h t_max)" and "0 < length C"
    and "j < length C \<Longrightarrow> C ! j =
      (if \<exists>m. 1 \<le> m \<and> m \<le> j \<and> 1000 < \<bar>C0 * (1 - h * k) ^ m\<bar> then NaN
       else Num (C0 * (1 - h * k) ^ j))"
proof -
  note C = explicit_Inr(3)[OF assms]
  show len: "length C = nat (n_steps h t_max)" and "0 < length C"
    using explicit_Inr(1)[OF assms] by (simp_all add: C explicit_tail_length)
  assume j: "j < length C"
  show "C ! j = (if \<exists>m. 1 \<le> m \<and> m \<le> j \<and> 1000 < \<bar>C0 * (1 - h * k) ^ m\<bar> then NaN
       else Num (C0 * (1 - h * k) ^ j))"
  proof (cases j)
    case 0
    then show ?thesis by (simp add: C)
  next
    case (Suc i)
    have "(\<exists>m. 1 \<le> m \<and> m \<le> Suc i \<and> 1000 < \<bar>C0 * (1 - h * k) ^ m\<bar>) \<longleftrightarrow>
        (\<exists>r\<le>i. 1000 < \<bar>C0 * (1 - h * k) ^ (r + 1)\<bar>)"
      by (metis Suc_eq_plus1 Suc_le_mono le_add2 not0_implies_Suc not_one_le_zero plus_1_eq_Suc)
    moreover have "i < nat (n_steps h t_max) - 1" using j Suc len by simp
    ultimately show ?thesis
      using explicit_tail_nth[of i _ h k C0] by (simp add: C Suc)
  qed
qed

section \<open>Claims about the explicit integrator\<close>

text \<open>Three runs: one marked at its first step, one whose step does not divide the
  horizon, and the spec's unstable example \<open>k = 0.5\<close>, \<open>h = 4.5\<close>, \<open>C0 = 4\<close>, \<open>t_max = 10\<close>.\<close>

lemma explicit_example_diverged:
  "generate_explicit_euler 0.5 0.5 5000 1 = Inr ([0, 1 / 2, 1], [Num 5000, NaN, NaN])"
  by (simp add: generate_explicit_euler_def n_steps_def py_int_def linspace_def zeros_def
      upt_conv_Cons numeral_eq_Suc)





text \<open>
  Claim C10. In every trajectory the explicit integrator returns, each element at an
  index from 1 on is NaN or a number of magnitude at most 1000, while element 0 is
  \<open>C0\<close> whatever its magnitude: the threshold is never applied to it.
\<close>

theorem explicit_threshold_invariant:
  assumes "generate_explicit_euler h k C0 t_max = Inr (t, C)"
  shows "C \<noteq> [] \<and> C ! 0 = Num C0 \<and>
    (\<forall>i. 1 \<le> i \<and> i < length C \<longrightarrow> C ! i = NaN \<or> (\<exists>c. C ! i = Num c \<and> \<bar>c\<bar> \<le> 1000))"
proof -
  have "C ! i = NaN \<or> (\<exists>c. C ! i = Num c \<and> \<bar>c\<bar> \<le> 1000)" if "1 \<le> i" "i < length C" for i
  proof (cases "1000 < \<bar>C0 * (1 - h * k) ^ i\<bar>")
    case True
    with that(1) have "\<exists>m. 1 \<le> m \<and> m \<le> i \<and> 1000 < \<bar>C0 * (1 - h * k) ^ m\<bar>" by blast
    then show ?thesis using explicit_nth(3)[OF assms that(2)] by simp
  next
    case False
    then show ?thesis using explicit_nth(3)[OF assms that(2)] by simp
  qed
  moreover have "C ! 0 = Num C0"
    using explicit_nth(3)[OF assms, of 0] explicit_nth(2)[OF assms] by simp
  ultimately show ?thesis using explicit_nth(2)[OF assms] by auto
qed

theorem explicit_threshold_invariant_witness:
  "[Num 5000, NaN, NaN] ! 0 = Num 5000 \<and> 1000 < \<bar>5000 :: real\<bar> \<and>
   [Num 5000, NaN, NaN] ! 1 = NaN \<and> [Num 5000, NaN, NaN] ! 2 = NaN"
  using explicit_threshold_invariant[OF explicit_example_diverged]
  by simp

text \<open>The samples of \<open>np.linspace(0, t_max, n)\<close> for a positive count \<open>n\<close>.\<close>

lemma linspace_nth:
  assumes "linspace 0 t_max n = Inr t" and "0 < n"
  shows "length t = nat n"
    and "i < nat n \<Longrightarrow> t ! i = (if 1 < n then real i * (t_max / real_of_int (n - 1)) else 0)"
proof -
  show "length t = nat n"
    using assms by (auto simp: linspace_def Let_def split: if_splits)
  assume i: "i < nat n"
  show "t ! i = (if 1 < n then real i * (t_max / real_of_int (n - 1)) else 0)"
  proof (cases "1 < n")
    case False
    with assms have "n = 1" by simp
    with assms i show ?thesis by (auto simp: linspace_def Let_def)
  next
    case True
    then have t: "t = (map (\<lambda>i. real i * (t_max / real_of_int (n - 1)) + 0) [0..<nat n])
                    [nat n - 1 := t_max]"
      using assms by (auto simp: linspace_def Let_def)
    show ?thesis
    proof (cases "i = nat n - 1")
      case False
      with t i True show ?thesis by simp
    next
      case last: True
      have "real (nat n - 1) = real_of_int (n - 1)" using True by simp
      moreover have "real_of_int (n - 1) \<noteq> 0" using True by simp
      ultimately have "real (nat n - 1) * (t_max / real_of_int (n - 1)) = t_max" by simp
      with t i True last show ?thesis by simp
    qed
  qed
qed







section \<open>The loop of the implicit integrator\<close>

lemma implicit_loop_tail:
  "length C = i + 1 + m \<Longrightarrow>
   implicit_loop h k [i..<i + m] C = take (i + 1) C @ implicit_tail h k (C ! i) m"
proof (induction m arbitrary: i C)
  case 0
  then show ?case by simp
next
  case (Suc m)
  let ?C1 = "C[i + 1 := np_div (C ! i) (1 + h * k)]"
  have upt: "[i..<i + Suc m] = i # [i + 1..<(i + 1) + m]"
    by (simp add: upt_conv_Cons)
  have "take (i + 1 + 1) ?C1 = take (i + 1) C @ [np_div (C ! i) (1 + h * k)]"
    and "?C1 ! (i + 1) = np_div (C ! i) (1 + h * k)"
    using Suc.prems by (simp_all add: take_Suc_conv_app_nth)
  moreover have "implicit_loop h k [i + 1..<(i + 1) + m] ?C1 =
      take (i + 1 + 1) ?C1 @ implicit_tail h k (?C1 ! (i + 1)) m"
    using Suc.prems by (intro Suc.IH) simp
  ultimately show ?case
    unfolding upt implicit_loop.simps by simp
qed

lemma implicit_tail_nth:
  "1 + h * k \<noteq> 0 \<Longrightarrow> j < m \<Longrightarrow>
   implicit_tail h k (Num c) m ! j = Num (c / (1 + h * k) ^ (j + 1))"
proof (induction m arbitrary: c j)
  case 0
  then show ?case by simp
next
  case (Suc m)
  then show ?case by (cases j) simp_all
qed

lemma implicit_raises_iff:
  "isl (generate_implicit_euler h k C0 t_max) \<longleftrightarrow> h = 0 \<or> t_max / h \<le> - 1"
proof -
  have "isl (generate_implicit_euler h k C0 t_max) \<longleftrightarrow> h = 0 \<or> py_int (t_max / h) + 1 \<le> 0"
    by (auto simp: generate_implicit_euler_def n_steps_def linspace_def zeros_def Let_def)
  then show ?thesis by (simp add: py_int_le_minus_one)
qed

lemma implicit_returns:
  assumes "0 < h" and "0 \<le> t_max"
  shows "\<exists>t C. generate_implicit_euler h k C0 t_max = Inr (t, C)"
proof -
  have "0 \<le> t_max / h" using assms by simp
  then have "\<not> t_max / h \<le> - 1" by linarith
  then have "\<not> isl (generate_implicit_euler h k C0 t_max)"
    using assms by (simp only: implicit_raises_iff) simp
  then show ?thesis by (cases "generate_implicit_euler h k C0 t_max") auto
qed

lemma implicit_Inr:
  assumes "generate_implicit_euler h k C0 t_max = Inr (t, C)"
  shows "0 < n_steps h t_max"
    and "linspace 0 t_max (n_steps h t_max) = Inr t"
    and "C = Num C0 # implicit_tail h k (Num C0) (nat (n_steps h t_max) - 1)"
proof -
  let ?n = "nat (n_steps h t_max)"
  let ?A = "(replicate ?n (Num 0))[0 := Num C0]"
  show n: "0 < n_steps h t_max" and "linspace 0 t_max (n_steps h t_max) = Inr t"
    using assms
    by (auto simp: generate_implicit_euler_def linspace_def zeros_def Let_def
        split: if_splits)
  have "C = implicit_loop h k [0..<0 + (?n - 1)] ?A"
    using assms n
    by (auto simp: generate_implicit_euler_def zeros_def nat_diff_distrib
        split: if_splits sum.splits)
  moreover have "\<dots> = take (0 + 1) ?A @ implicit_tail h k (?A ! 0) (?n - 1)"
    using n by (intro implicit_loop_tail) auto
  moreover have "take (0 + 1) ?A = [Num C0]" and "?A ! 0 = Num C0"
    using n by (cases ?n; auto)+
  ultimately show "C = Num C0 # implicit_tail h k (Num C0) (?n - 1)" by simp
qed

text \<open>The closed form of the result for a divisor \<open>1 + h * k\<close> other than zero.\<close>

lemma implicit_nth:
  assumes "generate_implicit_euler h k C0 t_max = Inr (t, C)"
  shows "length C = nat (n_steps h t_max)"
    and "1 + h * k \<noteq> 0 \<Longrightarrow> j < length C \<Longrightarrow> C ! j = Num (C0 / (1 + h * k) ^ j)"
proof -
  note C = implicit_Inr(3)[OF assms]
  have tl: "length (implicit_tail h k x m) = m" for x m
    by (induction m arbitrary: x) auto
  show len: "length C = nat (n_steps h t_max)"
    using implicit_Inr(1)[OF assms] by (simp add: C tl)
  assume d: "1 + h * k \<noteq> 0" and j: "j < length C"
  show "C ! j = Num (C0 / (1 + h * k) ^ j)"
  proof (cases j)
    case 0
    then show ?thesis by (simp add: C)
  next
    case (Suc i)
    then have "i < nat (n_steps h t_max) - 1" using j len by simp
    from implicit_tail_nth[OF d this, of C0] show ?thesis by (simp add: C Suc)
  qed
qed

section \<open>Claims about the implicit integrator and about invalid parameters\<close>

text \<open>The largest step of the slider: \<open>h = 5\<close>, with \<open>k = 0.5\<close>, \<open>C0 = 4\<close>, \<open>t_max = 10\<close>.\<close>

lemma implicit_example:
  "generate_implicit_euler 5 0.5 4 10 = Inr ([0, 5, 10], [Num 4, Num (8 / 7), Num (16 / 49)])"
  by (simp add: generate_implicit_euler_def n_steps_def py_int_def linspace_def zeros_def
      upt_conv_Cons numeral_eq_Suc)

text \<open>
  Claim C3. For \<open>h > 0\<close>, \<open>k > 0\<close>, \<open>t_max > 0\<close> and any \<open>C0\<close> the implicit integrator
  returns \<open>floor(t_max / h) + 1\<close> values with \<open>C[0] = C0\<close> and
  \<open>C[i + 1] = C[i] / (1 + h * k)\<close>, all of them numbers, so that the magnitude never
  increases from one value to the next, and no element is NaN.
\<close>

theorem implicit_trajectory:
  assumes "0 < h" and "0 < k" and "0 < t_max"
  shows "\<exists>t C. generate_implicit_euler h k C0 t_max = Inr (t, C) \<and>
    length C = nat \<lfloor>t_max / h\<rfloor> + 1 \<and> length t = length C \<and>
    C ! 0 = Num C0 \<and>
    (\<forall>i. i + 1 < length C \<longrightarrow>
       (\<exists>a. C ! i = Num a \<and> C ! (i + 1) = Num (a / (1 + h * k)) \<and> \<bar>a / (1 + h * k)\<bar> \<le> \<bar>a\<bar>)) \<and>
    NaN \<notin> set C"
proof -
  from implicit_returns[of h t_max k C0] assms
  obtain t C where g: "generate_implicit_euler h k C0 t_max = Inr (t, C)" by auto
  have d: "1 < 1 + h * k" using assms by simp
  then have d0: "1 + h * k \<noteq> 0" by simp
  have cf: "C ! j = Num (C0 / (1 + h * k) ^ j)" if "j < length C" for j
    by (rule implicit_nth(2)[OF g d0 that])
  have fl: "0 \<le> \<lfloor>t_max / h\<rfloor>" using assms by simp
  have len: "length C = nat \<lfloor>t_max / h\<rfloor> + 1"
    using implicit_nth(1)[OF g] n_steps_pos[of h t_max] assms fl by (simp add: nat_add_distrib)
  have lt: "length t = length C"
    using linspace_nth(1)[OF implicit_Inr(2)[OF g] implicit_Inr(1)[OF g]] implicit_nth(1)[OF g]
    by simp
  have step: "\<exists>a. C ! i = Num a \<and> C ! (i + 1) = Num (a / (1 + h * k)) \<and> \<bar>a / (1 + h * k)\<bar> \<le> \<bar>a\<bar>"
    if "i + 1 < length C" for i
  proof -
    let ?a = "C0 / (1 + h * k) ^ i"
    have a: "C ! i = Num ?a" using cf[of i] that by simp
    have b: "C ! (i + 1) = Num (?a / (1 + h * k))" using cf[of "i + 1"] that by simp
    have "\<bar>?a / (1 + h * k)\<bar> = \<bar>?a\<bar> / (1 + h * k)" using d by simp
    also have "\<dots> \<le> \<bar>?a\<bar> / 1" using d by (intro divide_left_mono) auto
    finally have "\<bar>?a / (1 + h * k)\<bar> \<le> \<bar>?a\<bar>" by simp
    with a b show ?thesis by blast
  qed
  have "NaN \<notin> set C"
  proof
    assume "NaN \<in> set C"
    then obtain j where "j < length C" "C ! j = NaN" by (auto simp: in_set_conv_nth)
    with cf[of j] show False by simp
  qed
  moreover have "C ! 0 = Num C0" using cf[of 0] len by simp
  ultimately show ?thesis using g len lt step
    by (intro exI[of _ t] exI[of _ C]) blast
qed

theorem implicit_trajectory_witness:
  "generate_implicit_euler 5 0.5 4 10 = Inr ([0, 5, 10], [Num 4, Num (8 / 7), Num (16 / 49)]) \<and>
   length [Num 4, Num (8 / 7), Num (16 / 49)] = nat \<lfloor>10 / 5 :: real\<rfloor> + 1 \<and>
   [Num 4, Num (8 / 7), Num (16 / 49)] ! 1 = Num (4 / (1 + 5 * 0.5)) \<and>
   \<bar>4 / (1 + 5 * 0.5) :: real\<bar> \<le> \<bar>4\<bar> \<and>
   NaN \<notin> set [Num 4, Num (8 / 7), Num (16 / 49)]"
  using implicit_trajectory[of 5 "0.5" 10 4]
  unfolding implicit_example by simp








section \<open>Claims about the diagnostics\<close>

text \<open>
  Claim C4. For \<open>k > 0\<close> and every \<open>h\<close> (so for every \<open>h > 0\<close>) the stability box of
  the explicit method is "unstable" exactly when \<open>h > 2 / k\<close>, "near limit" exactly when
  \<open>h \<le> 2 / k\<close> and \<open>h > 0.8 * (2 / k)\<close>, and "stable" exactly when
  \<open>h \<le> 0.8 * (2 / k)\<close>; the box of the implicit method is "unconditionally stable" for
  every \<open>h\<close>.
\<close>

theorem stability_classification:
  assumes "0 < k"
  shows "(stability_analysis ''Explicit Euler'' h k = Inr Unstable \<longleftrightarrow> h > 2 / k) \<and>
    (stability_analysis ''Explicit Euler'' h k = Inr Near_Limit \<longleftrightarrow>
       h \<le> 2 / k \<and> h > 0.8 * (2 / k)) \<and>
    (stability_analysis ''Explicit Euler'' h k = Inr Stable \<longleftrightarrow> h \<le> 0.8 * (2 / k)) \<and>
    (\<exists>s. stability_analysis ''Explicit Euler'' h k = Inr s) \<and>
    stability_analysis ''Implicit Euler'' h k = Inr Unconditionally_Stable"
proof -
  define c where "c = 2 / k"
  have "0 < c" using assms by (simp add: c_def)
  then have "c * 0.8 \<le> c" by simp
  then show ?thesis
    using assms unfolding stability_analysis_def critical_h_def stability_box_def c_def[symmetric]
    by auto
qed

theorem stability_classification_witness:
  "stability_analysis ''Explicit Euler'' 4.5 0.5 = Inr Unstable \<and>
   stability_analysis ''Explicit Euler'' 3.3 0.5 = Inr Near_Limit \<and>
   stability_analysis ''Explicit Euler'' 0.5 0.5 = Inr Stable \<and>
   stability_analysis ''Implicit Euler'' 4.5 0.5 = Inr Unconditionally_Stable"
  using stability_classification[of "0.5" "4.5"] stability_classification[of "0.5" "3.3"]
    stability_classification[of "0.5" "0.5"]
  by simp

text \<open>
  Claim C6 as stated fails at the boundary: for \<open>k = 0.5\<close> the step \<open>h = 4.0\<close> is not above
  \<open>critical_h = 4.0\<close> but it is above \<open>0.8 * 4.0 = 3.2\<close>, so the box is "near limit" and
  not "stable".
\<close>

theorem stability_boundary_counterexample:
  "stability_analysis ''Explicit Euler'' 4.0 0.5 = Inr Near_Limit \<and>
   stability_analysis ''Explicit Euler'' 4.0 0.5 \<noteq> Inr Stable"
  by (simp add: stability_analysis_def critical_h_def stability_box_def)

text \<open>
  Claim C6, amended. For \<open>k = 0.5\<close> the critical step is 4.0; the explicit method's box is
  "near limit" for \<open>h = 4.0\<close>, "unstable" for \<open>h = 4.01\<close> and "near limit" for \<open>h = 3.3\<close>.
\<close>

theorem stability_boundary_values:
  "critical_h 0.5 = Inr 4.0 \<and>
   stability_analysis ''Explicit Euler'' 4.0 0.5 = Inr Near_Limit \<and>
   stability_analysis ''Explicit Euler'' 4.01 0.5 = Inr Unstable \<and>
   stability_analysis ''Explicit Euler'' 3.3 0.5 = Inr Near_Limit"
  by (simp add: stability_analysis_def critical_h_def stability_box_def)

text \<open>A bound on the analytical final value of \<open>main\<close>, \<open>4 * exp(-5)\<close>.\<close>

lemma analytical_final_bound: "C_analytical_final 0.5 4 10 \<le> 1 / 8"
proof -
  have "(2 :: real) \<le> exp 1" using exp_ge_add_one_self[of "1 :: real"] by simp
  then have "(2 :: real) ^ 5 \<le> exp 1 ^ 5" by (intro power_mono) auto
  also have "exp (1 :: real) ^ 5 = exp 5" using exp_of_nat_mult[of 5 "1 :: real"] by simp
  finally have e: "(32 :: real) \<le> exp 5" by simp
  have "exp (- 5 :: real) = 1 / exp 5" by (simp add: exp_minus divide_inverse)
  also have "\<dots> \<le> 1 / 32" using e by (intro divide_left_mono) auto
  finally have "exp (- 5 :: real) \<le> 1 / 32" .
  then show ?thesis by (simp add: C_analytical_final_def)
qed

text \<open>
  Claim C5 as stated fails for the implicit method, which has no accuracy tiers: with
  \<open>h = 5\<close> the implicit final value is \<open>16 / 49\<close>, the error against \<open>4 * exp(-5)\<close> is
  above 0.1, and the box rendered is the one of the implicit results, not "poor".
\<close>

theorem accuracy_tier_counterexample:
  "\<not> np_lt (error_implicit (Num (16 / 49)) (C_analytical_final 0.5 4 10)) 0.1 \<and>
   fst (accuracy_analysis ''Implicit Euler'' (Num 9) (Num (16 / 49)) (C_analytical_final 0.5 4 10))
     = Implicit_Results \<and>
   fst (accuracy_analysis ''Implicit Euler'' (Num 9) (Num (16 / 49)) (C_analytical_final 0.5 4 10))
     \<noteq> Poor"
proof -
  have "C_analytical_final 0.5 4 10 \<le> 1 / 8" by (rule analytical_final_bound)
  then have "\<not> \<bar>16 / 49 - C_analytical_final 0.5 4 10\<bar> < 0.1" by linarith
  then show ?thesis by (simp add: error_implicit_def accuracy_analysis_def)
qed

text \<open>
  Claim C5, amended. For the explicit method and a numeric final value \<open>c\<close>, with
  \<open>e = |c - analytical_final|\<close>, the accuracy box is "excellent" exactly when \<open>e < 0.01\<close>,
  "good" exactly when \<open>0.01 \<le> e < 0.1\<close> and "poor" exactly when \<open>e \<ge> 0.1\<close>; when the final
  value is NaN the error is infinite and the box is "poor". For the implicit method no
  tier is assigned: the box of the implicit results is rendered whatever the error.
\<close>

theorem accuracy_classification:
  "(fst (accuracy_analysis ''Explicit Euler'' (Num c) il a) = Excellent \<longleftrightarrow> \<bar>c - a\<bar> < 0.01) \<and>
   (fst (accuracy_analysis ''Explicit Euler'' (Num c) il a) = Good \<longleftrightarrow>
      0.01 \<le> \<bar>c - a\<bar> \<and> \<bar>c - a\<bar> < 0.1) \<and>
   (fst (accuracy_analysis ''Explicit Euler'' (Num c) il a) = Poor \<longleftrightarrow> 0.1 \<le> \<bar>c - a\<bar>) \<and>
   error_explicit (Num c) a = Num \<bar>c - a\<bar> \<and>
   error_explicit NaN a = PInf \<and>
   fst (accuracy_analysis ''Explicit Euler'' NaN il a) = Poor \<and>
   fst (accuracy_analysis ''Implicit Euler'' el il a) = Implicit_Results"
  by (auto simp: accuracy_analysis_def error_explicit_def C_explicit_final_def)

theorem accuracy_classification_witness:
  "fst (accuracy_analysis ''Explicit Euler'' (Num 0.03) (Num 0.04) 0.027) = Excellent \<and>
   fst (accuracy_analysis ''Explicit Euler'' (Num 0.05) (Num 0.04) 0.027) = Good \<and>
   fst (accuracy_analysis ''Explicit Euler'' (Num 9) (Num 0.04) 0.027) = Poor \<and>
   fst (accuracy_analysis ''Explicit Euler'' NaN (Num 0.04) 0.027) = Poor"
  using accuracy_classification[of "0.03" "Num 0.04" "0.027"]
    accuracy_classification[of "0.05" "Num 0.04" "0.027"]
    accuracy_classification[of 9 "Num 0.04" "0.027"]
  by simp




end
